theory Spec2Isabelle
  imports Main
begin

section \<open>Strings\<close>

text \<open>
  Strings are lists of bytes. \<open>lower\<close> is Python's \<open>str.lower\<close> on ASCII letters;
  bytes outside \<open>A\<close>..\<open>Z\<close> are left as they are. \<open>str_nat\<close> is \<open>str\<close> on a
  non-negative integer (a round counter).
\<close>

definition lower_char :: "char \<Rightarrow> char" where
  "lower_char c =
     (let n = (of_char c :: nat) in if 65 \<le> n \<and> n \<le> 90 then char_of (n + 32) else c)"

definition lower :: "string \<Rightarrow> string" where
  "lower s = map lower_char s"

definition digit_char :: "nat \<Rightarrow> char" where
  "digit_char d = char_of (48 + d)"

fun str_nat :: "nat \<Rightarrow> string" where
  "str_nat n = (if n < 10 then [digit_char n] else str_nat (n div 10) @ [digit_char (n mod 10)])"

declare str_nat.simps [simp del]

definition nl :: string where
  "nl = [CHR 0x0A]"

definition tab :: string where
  "tab = [CHR 0x09]"

text \<open>\<open>s.split('/')\<close>: the pieces between slashes, empty pieces included.\<close>

fun split_sep :: "string \<Rightarrow> string list" where
  "split_sep [] = [[]]"
| "split_sep (c # cs) =
     (if c = CHR ''/'' then [] # split_sep cs
      else (case split_sep cs of [] \<Rightarrow> [[c]] | w # ws \<Rightarrow> (c # w) # ws))"

text \<open>\<open>sep.join(xs)\<close> with the separator \<open>/\<close>.\<close>

fun join_sep :: "string list \<Rightarrow> string" where
  "join_sep [] = []"
| "join_sep [x] = x"
| "join_sep (x # y # ys) = x @ ''/'' @ join_sep (y # ys)"

section \<open>Paths (pathlib, POSIX flavour)\<close>

text \<open>
  A path is what pathlib holds after parsing: a root (\<open>''''\<close> for a relative path,
  \<open>''/''\<close>, or \<open>''//''\<close> for exactly two leading slashes) and the list of its
  components. Two paths are equal when root and components are equal, which is the
  comparison \<open>in\<close> uses on \<open>f.parents\<close>.
\<close>

record path =
  root :: string
  parts :: "string list"

text \<open>\<open>Path(s)\<close>: split off the root, drop empty components and \<open>.\<close>.\<close>

definition splitroot :: "string \<Rightarrow> string \<times> string" where
  "splitroot p =
     (if take 1 p \<noteq> ''/'' then ('''', p)
      else if take 1 (drop 1 p) \<noteq> ''/'' \<or> take 1 (drop 2 p) = ''/'' then (''/'', drop 1 p)
      else (take 2 p, drop 2 p))"

definition Path :: "string \<Rightarrow> path" where
  "Path s =
     (let (r, rel) = splitroot s
      in \<lparr>root = r, parts = filter (\<lambda>x. x \<noteq> [] \<and> x \<noteq> ''.'') (split_sep rel)\<rparr>)"

definition is_absolute :: "path \<Rightarrow> bool" where
  "is_absolute p = (root p \<noteq> [])"

text \<open>\<open>p / q\<close>: an absolute right operand replaces the left one.\<close>

definition joinpath :: "path \<Rightarrow> path \<Rightarrow> path" where
  "joinpath p q = (if is_absolute q then q else \<lparr>root = root p, parts = parts p @ parts q\<rparr>)"

definition str_path :: "path \<Rightarrow> string" where
  "str_path p =
     (let s = root p @ join_sep (parts p) in if s = [] then ''.'' else s)"

definition name :: "path \<Rightarrow> string" where
  "name p = (if parts p = [] then [] else last (parts p))"

text \<open>\<open>name.rfind('.')\<close>: the index of the last dot, if there is one.\<close>

fun rfind_dot :: "string \<Rightarrow> nat option" where
  "rfind_dot [] = None"
| "rfind_dot (c # cs) =
     (case rfind_dot cs of
        Some i \<Rightarrow> Some (Suc i)
      | None \<Rightarrow> if c = CHR ''.'' then Some 0 else None)"

definition suffix :: "path \<Rightarrow> string" where
  "suffix p =
     (case rfind_dot (name p) of
        Some i \<Rightarrow> if 0 < i \<and> i < length (name p) - 1 then drop i (name p) else []
      | None \<Rightarrow> [])"

definition stem :: "path \<Rightarrow> string" where
  "stem p =
     (case rfind_dot (name p) of
        Some i \<Rightarrow> if 0 < i \<and> i < length (name p) - 1 then take i (name p) else name p
      | None \<Rightarrow> name p)"

definition parent :: "path \<Rightarrow> path" where
  "parent p = (if parts p = [] then p else p\<lparr>parts := butlast (parts p)\<rparr>)"

text \<open>\<open>p.parents\<close>: the proper ancestors, nearest first.\<close>

fun ancestors :: "string \<Rightarrow> string list \<Rightarrow> path list" where
  "ancestors r [] = []"
| "ancestors r (x # xs) = \<lparr>root = r, parts = rev xs\<rparr> # ancestors r xs"

definition parents :: "path \<Rightarrow> path list" where
  "parents p = ancestors (root p) (rev (parts p))"

section \<open>Configuration\<close>

text \<open>
  \<open>CONFIG\<close> as the code reads it: \<open>CONFIG.get("target")\<close> and
  \<open>CONFIG.get("rules", [])\<close>. Of a rule the code reads
  \<open>r.get("match", {}).get("ext", [])\<close>, \<open>r.get("action", {}).get("move_to")\<close> and
  \<open>r.get("name", "rule")\<close>: a missing \<open>match\<close> is an empty \<open>ext\<close> list, a missing
  \<open>action\<close> is a missing \<open>move_to\<close>.
\<close>

record rule =
  rule_name :: "string option"
  ext :: "string list"
  move_to :: "string option"

record config =
  target :: "string option"
  rules :: "rule list"


definition resolve_target :: "config \<Rightarrow> path \<Rightarrow> path" where
  "resolve_target cfg src =
     (case target cfg of
        None \<Rightarrow> joinpath src (Path ''Organized'')
      | Some raw_tgt \<Rightarrow>
          if raw_tgt \<noteq> [] then
            (let tgt = Path raw_tgt
             in if \<not> is_absolute tgt then joinpath src tgt else tgt)
          else joinpath src (Path ''Organized''))"

section \<open>Planning\<close>

type_synonym planned = "path \<times> path \<times> string"

definition exts :: "rule \<Rightarrow> string set" where
  "exts r = set (map lower (ext r))"


definition rule_label :: "rule \<Rightarrow> string" where
  "rule_label r = (case rule_name r of None \<Rightarrow> ''rule'' | Some n \<Rightarrow> n)"

text \<open>The inner loop \<open>for r in rules: ... break\<close>: at most one entry for a file.\<close>

fun match_rules :: "path \<Rightarrow> rule list \<Rightarrow> path \<Rightarrow> planned option" where
  "match_rules tgt [] f = None"
| "match_rules tgt (r # rs) f =
     (case move_to r of
        None \<Rightarrow> match_rules tgt rs f
      | Some mt \<Rightarrow>
          if ext r \<noteq> [] \<and> mt \<noteq> [] \<and> lower (suffix f) \<in> exts r
          then Some (f, joinpath (joinpath tgt (Path mt)) (Path (name f)), rule_label r)
          else match_rules tgt rs f)"

section \<open>The filesystem\<close>

text \<open>
  The environment the program runs in: a POSIX filesystem with regular files and
  directories, without symbolic links and without permissions. It is a list of entries,
  each an absolute, normalised list of components with its kind; the order of the list is
  the order in which the operating system enumerates entries. The root directory is
  always there. \<open>cwd\<close> is the working directory of the process, against which relative
  paths are taken.
\<close>

datatype kind = File | Dir

type_synonym key = "string list"

type_synonym filesystem = "(key \<times> kind) list"

datatype exc =
  FileNotFoundError | NotADirectoryError | FileExistsError | IsADirectoryError
  | OSError | ShutilError | ValueError | TypeError

text \<open>An exception: its class and its message (\<open>str(e)\<close>).\<close>

type_synonym pyerr = "exc \<times> string"

text \<open>\<open>type(e).__name__\<close>\<close>

fun type_name :: "exc \<Rightarrow> string" where
  "type_name FileNotFoundError = ''FileNotFoundError''"
| "type_name NotADirectoryError = ''NotADirectoryError''"
| "type_name FileExistsError = ''FileExistsError''"
| "type_name IsADirectoryError = ''IsADirectoryError''"
| "type_name OSError = ''OSError''"
| "type_name ShutilError = ''Error''"
| "type_name ValueError = ''ValueError''"
| "type_name TypeError = ''TypeError''"

definition enoent :: pyerr where
  "enoent = (FileNotFoundError, ''[Errno 2] No such file or directory'')"

definition enotdir :: pyerr where
  "enotdir = (NotADirectoryError, ''[Errno 20] Not a directory'')"

definition eexist :: pyerr where
  "eexist = (FileExistsError, ''[Errno 17] File exists'')"

definition eisdir :: pyerr where
  "eisdir = (IsADirectoryError, ''[Errno 21] Is a directory'')"

definition einval :: pyerr where
  "einval = (OSError, ''[Errno 22] Invalid argument'')"

definition node :: "filesystem \<Rightarrow> key \<Rightarrow> kind option" where
  "node fs k = (if k = [] then Some Dir else map_of fs k)"

text \<open>
  Path resolution by the operating system: every component is looked up in the directory
  reached so far, which must exist and be a directory; \<open>..\<close> goes to the parent. The
  entry reached by the last component need not exist.
\<close>

fun walk :: "filesystem \<Rightarrow> key \<Rightarrow> string list \<Rightarrow> pyerr + key" where
  "walk fs cur [] = Inr cur"
| "walk fs cur (c # cs) =
     (case node fs cur of
        None \<Rightarrow> Inl enoent
      | Some File \<Rightarrow> Inl enotdir
      | Some Dir \<Rightarrow> walk fs (if c = ''..'' then butlast cur else cur @ [c]) cs)"

definition locate :: "filesystem \<Rightarrow> key \<Rightarrow> path \<Rightarrow> pyerr + key" where
  "locate fs cwd p = walk fs (if is_absolute p then [] else cwd) (parts p)"

definition kind_of :: "filesystem \<Rightarrow> key \<Rightarrow> path \<Rightarrow> kind option" where
  "kind_of fs cwd p = (case locate fs cwd p of Inl e \<Rightarrow> None | Inr k \<Rightarrow> node fs k)"

text \<open>\<open>p.exists()\<close>, \<open>p.is_file()\<close>, \<open>p.is_dir()\<close>: a path that cannot be reached is not there.\<close>

definition exists_path :: "filesystem \<Rightarrow> key \<Rightarrow> path \<Rightarrow> bool" where
  "exists_path fs cwd p = (kind_of fs cwd p \<noteq> None)"

definition is_file :: "filesystem \<Rightarrow> key \<Rightarrow> path \<Rightarrow> bool" where
  "is_file fs cwd p = (kind_of fs cwd p = Some File)"

definition is_dir :: "filesystem \<Rightarrow> key \<Rightarrow> path \<Rightarrow> bool" where
  "is_dir fs cwd p = (kind_of fs cwd p = Some Dir)"

text \<open>\<open>os.mkdir(p)\<close>\<close>

definition os_mkdir :: "filesystem \<Rightarrow> key \<Rightarrow> path \<Rightarrow> pyerr + filesystem" where
  "os_mkdir fs cwd p =
     (case locate fs cwd p of
        Inl e \<Rightarrow> Inl e
      | Inr k \<Rightarrow> if node fs k \<noteq> None then Inl eexist else Inr (fs @ [(k, Dir)]))"

text \<open>
  \<open>p.mkdir(parents=False, exist_ok=True)\<close>: \<open>FileNotFoundError\<close> is raised again, any
  other \<open>OSError\<close> is swallowed when the path is a directory.
\<close>

definition mkdir_exist_ok :: "filesystem \<Rightarrow> key \<Rightarrow> path \<Rightarrow> pyerr + filesystem" where
  "mkdir_exist_ok fs cwd p =
     (case os_mkdir fs cwd p of
        Inr fs' \<Rightarrow> Inr fs'
      | Inl e \<Rightarrow>
          if fst e = FileNotFoundError then Inl e
          else if is_dir fs cwd p then Inr fs else Inl e)"

text \<open>
  \<open>p.mkdir(parents=True, exist_ok=True)\<close>. When it raises, the directories it has made
  by then stay: the error comes with the filesystem as it is left.
\<close>

function mkdir :: "filesystem \<Rightarrow> key \<Rightarrow> path \<Rightarrow> pyerr \<times> filesystem + filesystem" where
  "mkdir fs cwd p =
     (case os_mkdir fs cwd p of
        Inr fs' \<Rightarrow> Inr fs'
      | Inl e \<Rightarrow>
          if fst e = FileNotFoundError then
            (if parts p = [] then Inl (e, fs)
             else (case mkdir fs cwd (parent p) of
                     Inl x \<Rightarrow> Inl x
                   | Inr fs' \<Rightarrow>
                       (case mkdir_exist_ok fs' cwd p of
                          Inl e' \<Rightarrow> Inl (e', fs')
                        | Inr fs'' \<Rightarrow> Inr fs'')))
          else if is_dir fs cwd p then Inr fs else Inl (e, fs))"
  by pat_completeness auto
termination
  by (relation "measure (\<lambda>(fs, cwd, p). length (parts p))") (auto simp: parent_def)

declare mkdir.simps [simp del]

text \<open>
  \<open>os.rename(src, dst)\<close>: the entry, with everything below it when it is a directory,
  gets the new place. A regular file replaces an existing regular file.
\<close>

definition under :: "key \<Rightarrow> key \<Rightarrow> bool" where
  "under ks k = (take (length ks) k = ks)"

definition rename :: "filesystem \<Rightarrow> key \<Rightarrow> path \<Rightarrow> path \<Rightarrow> pyerr + filesystem" where
  "rename fs cwd src dst =
     (case locate fs cwd src of
        Inl e \<Rightarrow> Inl e
      | Inr ks \<Rightarrow>
          (case node fs ks of
             None \<Rightarrow> Inl enoent
           | Some sk \<Rightarrow>
               (case locate fs cwd dst of
                  Inl e \<Rightarrow> Inl e
                | Inr kd \<Rightarrow>
                    if ks = kd then Inr fs
                    else if under ks kd then Inl einval
                    else (case node fs kd of
                            Some Dir \<Rightarrow> Inl (if sk = File then eisdir else eexist)
                          | Some File \<Rightarrow>
                              if sk = Dir then Inl enotdir
                              else Inr (map (\<lambda>(k, v). if k = ks then (kd, v) else (k, v))
                                         (filter (\<lambda>(k, v). k \<noteq> kd) fs))
                          | None \<Rightarrow>
                              Inr (map (\<lambda>(k, v).
                                     if under ks k then (kd @ drop (length ks) k, v) else (k, v))
                                     fs)))))"

text \<open>
  \<open>shutil.move(str(src), str(dst))\<close> on one device: a destination that is a directory
  receives the source under its own name, unless that name is taken; otherwise the move
  is \<open>os.rename\<close>, and where that fails the copy that \<open>shutil\<close> falls back to fails for
  the same reason.
\<close>

definition move :: "filesystem \<Rightarrow> key \<Rightarrow> path \<Rightarrow> path \<Rightarrow> pyerr + filesystem" where
  "move fs cwd src dst =
     (if is_dir fs cwd dst then
        (if locate fs cwd src = locate fs cwd dst then rename fs cwd src dst
         else
           (let real_dst = joinpath dst (Path (name src))
            in if exists_path fs cwd real_dst
               then Inl (ShutilError,
                      ''Destination path '' @ [CHR 0x27] @ str_path real_dst @ [CHR 0x27]
                        @ '' already exists'')
               else rename fs cwd src real_dst))
      else rename fs cwd src dst)"

text \<open>
  \<open>p.resolve()\<close> without symbolic links: the path is made absolute and \<open>..\<close> is
  taken out with the component before it; nothing has to exist and nothing is raised.
\<close>

definition resolve :: "key \<Rightarrow> path \<Rightarrow> path" where
  "resolve cwd p =
     \<lparr>root = ''/'',
      parts = foldl (\<lambda>cur c. if c = ''..'' then butlast cur else cur @ [c])
                (if is_absolute p then [] else cwd) (parts p)\<rparr>"

text \<open>
  \<open>src.rglob("*")\<close>: every entry below \<open>src\<close>, named by \<open>src\<close> and the components below
  it, in the enumeration order of the filesystem; nothing when \<open>src\<close> is not a
  directory.
\<close>

definition rglob :: "filesystem \<Rightarrow> key \<Rightarrow> path \<Rightarrow> path list" where
  "rglob fs cwd src =
     (case locate fs cwd src of
        Inl e \<Rightarrow> []
      | Inr ks \<Rightarrow>
          if node fs ks \<noteq> Some Dir then []
          else map (\<lambda>k. \<lparr>root = root src, parts = parts src @ drop (length ks) k\<rparr>)
                 (filter (\<lambda>k. length ks < length k \<and> under ks k) (map fst fs)))"

section \<open>The program state\<close>

text \<open>
  The module's globals (\<open>CONFIG\<close>, \<open>selected_folder\<close>, \<open>PLANNED\<close>, \<open>LAST_MOVES\<close>), the
  filesystem with the working directory, the files written under \<open>logs/\<close> (name and
  content), and what the window shows: the items of the preview list and whether the
  Apply and Undo buttons are enabled. The emoji that decorate some items are left out
  of the item texts; the progress bar is not modelled.
\<close>

record state =
  disk :: filesystem
  workdir :: key
  CONFIG :: config
  selected_folder :: "string option"
  PLANNED :: "planned list"
  LAST_MOVES :: "(string \<times> string) list"
  logs :: "(string \<times> string) list"
  preview :: "string list"
  apply_btn :: bool
  undo_btn :: bool

text \<open>The loop over \<open>src.rglob("*")\<close> in \<open>start_arranging\<close>.\<close>

fun plan_files :: "filesystem \<Rightarrow> key \<Rightarrow> path \<Rightarrow> rule list \<Rightarrow> path list \<Rightarrow> planned list" where
  "plan_files fs cwd tgt rs [] = []"
| "plan_files fs cwd tgt rs (f # todo) =
     (if \<not> is_file fs cwd f then plan_files fs cwd tgt rs todo
      else if tgt \<in> set (parents f) then plan_files fs cwd tgt rs todo
      else (case match_rules tgt rs f of
              None \<Rightarrow> plan_files fs cwd tgt rs todo
            | Some e \<Rightarrow> e # plan_files fs cwd tgt rs todo))"

definition quoted :: "string \<Rightarrow> string" where
  "quoted s = [CHR 0x27] @ s @ [CHR 0x27]"

text \<open>The list \<open>planned\<close> that \<open>start_arranging\<close> builds for the selected folder.\<close>

definition plan_for :: "state \<Rightarrow> string \<Rightarrow> planned list" where
  "plan_for s folder =
     (let src = Path folder;
          tgt = resolve_target (CONFIG s) src
      in plan_files (disk s) (workdir s) tgt (rules (CONFIG s))
           (rglob (disk s) (workdir s) src))"

definition start_arranging :: "state \<Rightarrow> state" where
  "start_arranging s =
     (case selected_folder s of
        None \<Rightarrow> s
      | Some folder \<Rightarrow>
          if folder = [] then s
          else
            (let tgt = resolve_target (CONFIG s) (Path folder);
                 planned = plan_for s folder
             in if planned = [] then
                  s\<lparr>preview := [''No files to move for the current rules.''],
                    apply_btn := False\<rparr>
                else
                  s\<lparr>PLANNED := planned,
                    preview := [''Inside: '' @ quoted (str_path tgt),
                                ''Files will be organized into Images / PDFs / Docs / Videos.'',
                                ''If you want to proceed, click '' @ [CHR 0x22] @ ''Apply Moves''
                                  @ [CHR 0x22] @ ''.''],
                    apply_btn := True\<rparr>))"


section \<open>Avoiding overwrites\<close>

text \<open>
  \<open>p.with_name(n)\<close> raises \<open>ValueError\<close> for a path without a name and otherwise puts
  \<open>n\<close> in the place of the last component. The names given here are never empty and
  have no slash, as the components of a path have none.
\<close>

definition replace_name :: "path \<Rightarrow> string \<Rightarrow> path" where
  "replace_name p n = p\<lparr>parts := butlast (parts p) @ [n]\<rparr>"

definition with_name :: "path \<Rightarrow> string \<Rightarrow> pyerr + path" where
  "with_name p n =
     (if name p = [] then Inl (ValueError, str_path p @ '' has an empty name'')
      else Inr (replace_name p n))"

text \<open>
  The name tried in round \<open>i\<close>: \<open>f"{p.stem} ({i}){p.suffix}"\<close> when applying
  (\<open>token\<close> empty) and \<open>f"{p.stem} (undone {i}){p.suffix}"\<close> when undoing (\<open>token\<close> is
  \<open>undone\<close> and a space).
\<close>

definition numbered :: "string \<Rightarrow> path \<Rightarrow> nat \<Rightarrow> string" where
  "numbered token p i = stem p @ '' ('' @ token @ str_nat i @ '')'' @ suffix p"

text \<open>
  The loop \<open>while candidate.exists(): candidate = candidate.with_name(...); i += 1\<close>,
  which \<open>apply_moves\<close> and \<open>undo_moves\<close> both have, from the state \<open>candidate\<close>, \<open>i\<close>; the
  names come from \<open>dstf\<close>, the path the loop starts with. It only asks the filesystem
  whether a path exists.
\<close>

function first_free :: "filesystem \<Rightarrow> key \<Rightarrow> string \<Rightarrow> path \<Rightarrow> path \<Rightarrow> nat \<Rightarrow> pyerr + path" where
  "first_free fs cwd token dstf candidate i =
     (if exists_path fs cwd candidate then
        (case with_name candidate (numbered token dstf i) of
           Inl e \<Rightarrow> Inl e
         | Inr c \<Rightarrow> first_free fs cwd token dstf c (i + 1))
      else Inr candidate)"
  by pat_completeness auto

text \<open>
  The loop ends: the names of different rounds are different, and only finitely many
  entries exist.
\<close>

definition digits_value :: "string \<Rightarrow> nat" where
  "digits_value s = foldl (\<lambda>a c. a * 10 + (of_char c - 48)) 0 s"

lemma digits_value_str_nat: "digits_value (str_nat n) = n"
proof (induction n rule: str_nat.induct)
  case (1 n)
  show ?case
  proof (cases "n < 10")
    case True
    then show ?thesis
      by (subst str_nat.simps) (simp add: digits_value_def digit_char_def)
  next
    case False
    then have "digits_value (str_nat (n div 10)) = n div 10"
      using 1 by simp
    moreover have "(of_char (digit_char (n mod 10)) :: nat) - 48 = n mod 10"
      by (simp add: digit_char_def)
    ultimately show ?thesis
      using False by (subst str_nat.simps) (simp add: digits_value_def)
  qed
qed

lemma str_nat_inj: "str_nat i = str_nat j \<Longrightarrow> i = j"
  by (metis digits_value_str_nat)

lemma numbered_inj: "numbered token p i = numbered token p j \<Longrightarrow> i = j"
  by (simp add: numbered_def str_nat_inj)

lemma numbered_not_dotdot: "numbered token p i \<noteq> ''..''"
proof
  assume "numbered token p i = ''..''"
  then have "set (numbered token p i) = set ''..''"
    by simp
  moreover have "CHR '' '' \<in> set (numbered token p i)"
    by (simp add: numbered_def)
  ultimately show False by simp
qed

lemma numbered_not_empty: "numbered token p i \<noteq> []"
  by (simp add: numbered_def)

lemma walk_snoc:
  "walk fs cur (xs @ [n]) =
     (case walk fs cur xs of
        Inl e \<Rightarrow> Inl e
      | Inr k \<Rightarrow> (case node fs k of
                    None \<Rightarrow> Inl enoent
                  | Some File \<Rightarrow> Inl enotdir
                  | Some Dir \<Rightarrow> Inr (if n = ''..'' then butlast k else k @ [n])))"
  by (induction xs arbitrary: cur) (auto split: option.splits kind.splits)

lemma replace_name_twice: "replace_name (replace_name c m) n = replace_name c n"
  by (simp add: replace_name_def)

lemma name_replace_name: "name (replace_name c n) = n"
  by (simp add: replace_name_def name_def)

lemma exists_numbered:
  assumes "exists_path fs cwd (replace_name c (numbered token p i))"
  shows "\<exists>k. walk fs (if is_absolute c then [] else cwd) (butlast (parts c)) = Inr k
           \<and> k @ [numbered token p i] \<in> fst ` set fs"
proof -
  let ?b = "if is_absolute c then [] else cwd"
  have abs: "is_absolute (c\<lparr>parts := butlast (parts c) @ [numbered token p i]\<rparr>) = is_absolute c"
    by (simp add: is_absolute_def)
  from assms obtain k' where k':
    "walk fs ?b (butlast (parts c) @ [numbered token p i]) = Inr k'" "node fs k' \<noteq> None"
    by (auto simp: exists_path_def kind_of_def locate_def abs replace_name_def
        split: sum.splits)
  from k'(1) obtain k where k:
    "walk fs ?b (butlast (parts c)) = Inr k" "k' = k @ [numbered token p i]"
    by (auto simp: walk_snoc numbered_not_dotdot split: sum.splits option.splits kind.splits)
  from k'(2) k(2) have "map_of fs (k @ [numbered token p i]) \<noteq> None"
    by (simp add: node_def)
  then have "k @ [numbered token p i] \<in> fst ` set fs"
    by (metis map_of_eq_None_iff)
  with k(1) show ?thesis by blast
qed

lemma finite_taken: "finite {j. exists_path fs cwd (replace_name c (numbered token p j))}"
proof (cases "walk fs (if is_absolute c then [] else cwd) (butlast (parts c))")
  case (Inl e)
  then have "{j. exists_path fs cwd (replace_name c (numbered token p j))} = {}"
    using exists_numbered [of fs cwd c token p] by auto
  then show ?thesis by simp
next
  case (Inr k)
  let ?h = "\<lambda>j. k @ [numbered token p j]"
  have "inj ?h"
    by (auto simp: inj_def dest: numbered_inj)
  then have "finite (?h -` (fst ` set fs))"
    by (intro finite_vimageI) simp_all
  moreover have "{j. exists_path fs cwd (replace_name c (numbered token p j))}
      \<subseteq> ?h -` (fst ` set fs)"
    using exists_numbered [of fs cwd c token p] Inr by auto
  ultimately show ?thesis by (rule rev_finite_subset)
qed

text \<open>The number of rounds from \<open>i\<close> on whose path exists.\<close>

definition pending :: "filesystem \<Rightarrow> key \<Rightarrow> string \<Rightarrow> path \<Rightarrow> path \<Rightarrow> nat \<Rightarrow> nat" where
  "pending fs cwd token p c i =
     card {j. i \<le> j \<and> exists_path fs cwd (replace_name c (numbered token p j))}"

lemma pending_step:
  "(if exists_path fs cwd (replace_name c (numbered token p i)) then 1 else 0)
     + pending fs cwd token p c (Suc i)
   = pending fs cwd token p c i"
proof -
  let ?A = "{j. Suc i \<le> j \<and> exists_path fs cwd (replace_name c (numbered token p j))}"
  have fin: "finite ?A"
    using finite_taken [of fs cwd c token p] by (rule rev_finite_subset) auto
  show ?thesis
  proof (cases "exists_path fs cwd (replace_name c (numbered token p i))")
    case True
    then have "{j. i \<le> j \<and> exists_path fs cwd (replace_name c (numbered token p j))}
        = insert i ?A"
      by (auto simp: le_Suc_eq)
    moreover have "i \<notin> ?A"
      by simp
    ultimately show ?thesis
      using True fin by (simp add: pending_def)
  next
    case False
    then have "{j. i \<le> j \<and> exists_path fs cwd (replace_name c (numbered token p j))} = ?A"
      by (auto simp: Suc_le_eq order_less_le)
    then show ?thesis
      using False by (simp add: pending_def)
  qed
qed

termination first_free
proof (relation "measure (\<lambda>(fs, cwd, token, dstf, candidate, i).
         (if exists_path fs cwd candidate then 1 else 0) + pending fs cwd token dstf candidate i)")
  show "wf (measure (\<lambda>(fs, cwd, token, dstf, candidate, i).
         (if exists_path fs cwd candidate then 1 else 0) + pending fs cwd token dstf candidate i))"
    by simp
next
  fix fs cwd token dstf candidate i c
  assume ex: "exists_path fs cwd candidate"
    and w: "with_name candidate (numbered token dstf i) = Inr c"
  from w have c: "c = replace_name candidate (numbered token dstf i)"
    by (auto simp: with_name_def split: if_splits)
  have same: "pending fs cwd token dstf c (Suc i) = pending fs cwd token dstf candidate (Suc i)"
    by (simp add: pending_def c replace_name_twice)
  show "((fs, cwd, token, dstf, c, i + 1), (fs, cwd, token, dstf, candidate, i))
      \<in> measure (\<lambda>(fs, cwd, token, dstf, candidate, i).
         (if exists_path fs cwd candidate then 1 else 0) + pending fs cwd token dstf candidate i)"
    using ex pending_step [of fs cwd candidate token dstf i] same by (simp add: c)
qed

declare first_free.simps [simp del]

text \<open>The path that round \<open>i\<close> tries for \<open>p\<close>.\<close>

definition renamed :: "string \<Rightarrow> path \<Rightarrow> nat \<Rightarrow> path" where
  "renamed token p i = replace_name p (numbered token p i)"

section \<open>Applying the plan\<close>

text \<open>
  The local variables of \<open>apply_moves\<close> that the loop updates, with the filesystem and
  the text written to the log file so far.
\<close>

record batch =
  tree :: filesystem
  moved :: nat
  skipped :: "string list"
  failed :: "(string \<times> string) list"
  session_moves :: "(string \<times> string) list"
  lf :: string

text \<open>
  One round of \<open>for srcf, dstf, rname in PLANNED\<close>. \<open>Inl\<close> is an exception that nothing in
  \<open>apply_moves\<close> catches, with the variables as they were when it was raised:
  \<open>dstf.parent.mkdir(...)\<close> and the renaming loop stand outside the \<open>try\<close> blocks.
  \<open>resolve\<close> raises nothing here, so the handler for \<open>FileNotFoundError\<close> around the
  comparison is never entered. \<open>shutil.move\<close> is given the paths as strings; the
  operating system reads them as the paths themselves.
\<close>

definition apply_item :: "key \<Rightarrow> batch \<Rightarrow> planned \<Rightarrow> pyerr \<times> batch + batch" where
  "apply_item cwd b item =
     (case item of (srcf, dstf, rname) \<Rightarrow>
        (case mkdir (tree b) cwd (parent dstf) of
           Inl (e, fs1) \<Rightarrow> Inl (e, b\<lparr>tree := fs1\<rparr>)
         | Inr fs1 \<Rightarrow>
             if resolve cwd srcf = resolve cwd dstf then
               Inr (b\<lparr>tree := fs1,
                      skipped := skipped b @ [name srcf],
                      lf := lf b @ ''SKIPPED'' @ tab @ str_path srcf @ nl\<rparr>)
             else
               (case first_free fs1 cwd [] dstf dstf 1 of
                  Inl e \<Rightarrow> Inl (e, b\<lparr>tree := fs1\<rparr>)
                | Inr candidate \<Rightarrow>
                    (case move fs1 cwd srcf candidate of
                       Inr fs2 \<Rightarrow>
                         Inr (b\<lparr>tree := fs2,
                                moved := moved b + 1,
                                lf := lf b @ ''MOVED'' @ tab @ str_path srcf @ '' -> ''
                                        @ str_path candidate @ nl,
                                session_moves := session_moves b
                                        @ [(str_path candidate, str_path srcf)]\<rparr>)
                     | Inl e \<Rightarrow>
                         Inr (b\<lparr>tree := fs1,
                                failed := failed b @ [(name srcf, type_name (fst e))],
                                lf := lf b @ ''FAILED'' @ tab @ str_path srcf @ '' -> ''
                                        @ str_path candidate @ '' ('' @ type_name (fst e)
                                        @ '': '' @ snd e @ '')'' @ nl\<rparr>)))))"

fun apply_loop :: "key \<Rightarrow> batch \<Rightarrow> planned list \<Rightarrow> pyerr \<times> batch + batch" where
  "apply_loop cwd b [] = Inr b"
| "apply_loop cwd b (item # items) =
     (case apply_item cwd b item of
        Inl x \<Rightarrow> Inl x
      | Inr b' \<Rightarrow> apply_loop cwd b' items)"

text \<open>\<open>open(path, "w")\<close> with everything written to it: the file is made or replaced.\<close>

definition write_file :: "string \<Rightarrow> string \<Rightarrow> (string \<times> string) list \<Rightarrow> (string \<times> string) list" where
  "write_file path content files = (path, content) # filter (\<lambda>(p, c). p \<noteq> path) files"

definition log_path :: "string \<Rightarrow> string" where
  "log_path ts = str_path (joinpath (Path ''logs'') (Path (''arranger_'' @ ts @ ''.txt'')))"

text \<open>\<open>f"{selected_folder}"\<close>\<close>

definition fmt_folder :: "string option \<Rightarrow> string" where
  "fmt_folder folder = (case folder of None \<Rightarrow> ''None'' | Some f \<Rightarrow> f)"

definition log_header :: "string \<Rightarrow> string option \<Rightarrow> string" where
  "log_header ts folder = ''[Apply] '' @ ts @ nl @ ''Source: '' @ fmt_folder folder @ nl @ nl"

definition log_summary :: "batch \<Rightarrow> string" where
  "log_summary b =
     nl @ ''SUMMARY'' @ nl @ ''Moved: '' @ str_nat (moved b) @ ''  Skipped: ''
       @ str_nat (length (skipped b)) @ ''  Failed: '' @ str_nat (length (failed b)) @ nl"

text \<open>
  \<open>apply_moves\<close>, given the timestamp \<open>ts\<close> that \<open>datetime.now().strftime(...)\<close> returns.
  \<open>Inl\<close> is an exception leaving \<open>apply_moves\<close>, with the state it leaves behind: the
  moves made so far stay made, the log file has what was written, and nothing after
  the loop has run. The log files live apart from the tree that is organised.
\<close>

definition apply_moves :: "state \<Rightarrow> string \<Rightarrow> pyerr \<times> state + state" where
  "apply_moves s ts =
     (if PLANNED s = [] then Inr s
      else
        (case apply_loop (workdir s)
                \<lparr>tree = disk s, moved = 0, skipped = [], failed = [], session_moves = [],
                 lf = log_header ts (selected_folder s)\<rparr>
                (PLANNED s) of
           Inl (e, b) \<Rightarrow>
             Inl (e, s\<lparr>disk := tree b, logs := write_file (log_path ts) (lf b) (logs s)\<rparr>)
         | Inr b \<Rightarrow>
             (case selected_folder s of
                None \<Rightarrow>
                  Inl ((TypeError, ''expected str, bytes or os.PathLike object, not NoneType''),
                       s\<lparr>disk := tree b, logs := write_file (log_path ts) (lf b) (logs s)\<rparr>)
              | Some folder \<Rightarrow>
                  (let tgt = resolve_target (CONFIG s) (Path folder)
                   in Inr (s\<lparr>disk := tree b,
                             logs := write_file (log_path ts) (lf b @ log_summary b) (logs s),
                             LAST_MOVES := session_moves b,
                             undo_btn := (session_moves b \<noteq> []),
                             preview :=
                               [''All done!'',
                                ''Open '' @ quoted (str_path tgt) @ '' (click to open)'',
                                ''Log: '' @ quoted (log_path ts) @ '' (click to open)'',
                                ''Moved: '' @ str_nat (moved b) @ ''   Skipped: ''
                                  @ str_nat (length (skipped b)) @ ''   Failed: ''
                                  @ str_nat (length (failed b)),
                                ''If you don'' @ [CHR 0x27]
                                  @ ''t like these changes, click the '' @ quoted ''Undo''
                                  @ '' button.''],
                             PLANNED := [],
                             apply_btn := False\<rparr>)))))"

section \<open>Undoing the last batch\<close>

text \<open>
  The local variables of \<open>undo_moves\<close> that the loop updates, with the filesystem.
\<close>

record undoing =
  utree :: filesystem
  restored :: nat
  ufailed :: "(string \<times> string) list"

text \<open>
  One round of \<open>for final_path, original_path in reversed(LAST_MOVES)\<close>: everything that
  can raise is inside \<open>try\<close>, and \<open>except Exception\<close> notes the failure.
\<close>

definition undo_item :: "key \<Rightarrow> undoing \<Rightarrow> string \<times> string \<Rightarrow> undoing" where
  "undo_item cwd u entry =
     (case entry of (final_path, original_path) \<Rightarrow>
        (let final = Path final_path;
             original = Path original_path
         in case mkdir (utree u) cwd (parent original) of
              Inl (e, fs1) \<Rightarrow>
                u\<lparr>utree := fs1, ufailed := ufailed u @ [(name final, type_name (fst e))]\<rparr>
            | Inr fs1 \<Rightarrow>
                (case first_free fs1 cwd ''undone '' original original 1 of
                   Inl e \<Rightarrow>
                     u\<lparr>utree := fs1, ufailed := ufailed u @ [(name final, type_name (fst e))]\<rparr>
                 | Inr candidate \<Rightarrow>
                     (case move fs1 cwd final candidate of
                        Inr fs2 \<Rightarrow> u\<lparr>utree := fs2, restored := restored u + 1\<rparr>
                      | Inl e \<Rightarrow>
                          u\<lparr>utree := fs1,
                            ufailed := ufailed u @ [(name final, type_name (fst e))]\<rparr>))))"

fun undo_loop :: "key \<Rightarrow> undoing \<Rightarrow> (string \<times> string) list \<Rightarrow> undoing" where
  "undo_loop cwd u [] = u"
| "undo_loop cwd u (entry # entries) = undo_loop cwd (undo_item cwd u entry) entries"

definition undo_report :: "undoing \<Rightarrow> string list" where
  "undo_report u =
     [''All changes were undone.'',
      ''Restored: '' @ str_nat (restored u) @ ''   Failed: '' @ str_nat (length (ufailed u))]
     @ (if ufailed u \<noteq> [] then
          [''Failed to restore:'']
          @ map (\<lambda>(n, err). ''  - '' @ n @ '' ('' @ err @ '')'') (take 10 (ufailed u))
          @ (if length (ufailed u) > 10
             then [''  ... and '' @ str_nat (length (ufailed u) - 10) @ '' more'']
             else [])
        else [])"

definition undo_moves :: "state \<Rightarrow> state" where
  "undo_moves s =
     (if LAST_MOVES s = [] then s\<lparr>preview := [''Nothing to undo.'']\<rparr>
      else
        (let u = undo_loop (workdir s) \<lparr>utree = disk s, restored = 0, ufailed = []\<rparr>
                   (rev (LAST_MOVES s))
         in s\<lparr>disk := utree u,
              preview := undo_report u,
              LAST_MOVES := [],
              undo_btn := False\<rparr>))"

section \<open>What the log and the ledger are to hold\<close>

text \<open>
  The outcome of one planned move as the specification names it, with the path the move
  went to or was to go to, and the log line and ledger record the specification asks
  for each outcome. A skipped item is logged with its source only.
\<close>

datatype outcome = Moved path | Skipped | Failed path pyerr








section \<open>Example data\<close>


abbreviation ex_jpg :: path where
  "ex_jpg \<equiv> \<lparr>root = ''/'', parts = [''d'', ''x.jpg'']\<rparr>"





abbreviation ex_disk :: filesystem where
  "ex_disk \<equiv> [([''d''], Dir), ([''d'', ''x.jpg''], File), ([''d'', ''notes.txt''], File),
     ([''d'', ''Organized''], Dir), ([''d'', ''Organized'', ''Pics''], Dir),
     ([''d'', ''Organized'', ''Pics'', ''old.jpg''], File), ([''d'', ''sub''], Dir),
     ([''d'', ''sub'', ''scan.PDF''], File)]"



abbreviation ex_taken :: filesystem where
  "ex_taken \<equiv> ex_disk @ [([''d'', ''x (1).jpg''], File), ([''d'', ''x (2).jpg''], Dir)]"

abbreviation ex_new :: path where
  "ex_new \<equiv> \<lparr>root = ''/'', parts = [''d'', ''new.jpg'']\<rparr>"

abbreviation ex_rules :: "rule list" where
  "ex_rules \<equiv>
     [\<lparr>rule_name = Some ''img'', ext = [''.jpg''], move_to = Some ''Images''\<rparr>,
      \<lparr>rule_name = Some ''doc'', ext = [''.pdf''], move_to = Some ''PDFs''\<rparr>]"

text \<open>After a batch that moved \<open>a.jpg\<close> and \<open>b.pdf\<close>; a new \<open>a.jpg\<close> has appeared since.\<close>

abbreviation ex_done :: state where
  "ex_done \<equiv>
     \<lparr>disk = [([''s''], Dir), ([''s'', ''Organized''], Dir),
              ([''s'', ''Organized'', ''Images''], Dir),
              ([''s'', ''Organized'', ''Images'', ''a.jpg''], File),
              ([''s'', ''Organized'', ''PDFs''], Dir),
              ([''s'', ''Organized'', ''PDFs'', ''b.pdf''], File),
              ([''s'', ''a.jpg''], File)],
      workdir = [],
      CONFIG = \<lparr>target = None, rules = ex_rules\<rparr>,
      selected_folder = Some ''/s'',
      PLANNED = [],
      LAST_MOVES = [(''/s/Organized/Images/a.jpg'', ''/s/a.jpg''),
                    (''/s/Organized/PDFs/b.pdf'', ''/s/b.pdf'')],
      logs = [],
      preview = [],
      apply_btn = False,
      undo_btn = True\<rparr>"


text \<open>The same folder where \<open>Organized/Images\<close> is a regular file.\<close>

abbreviation ex_blocked :: state where
  "ex_blocked \<equiv>
     \<lparr>disk = [([''s''], Dir), ([''s'', ''a.jpg''], File), ([''s'', ''b.pdf''], File),
              ([''s'', ''Organized''], Dir), ([''s'', ''Organized'', ''Images''], File)],
      workdir = [],
      CONFIG = \<lparr>target = None, rules = ex_rules\<rparr>,
      selected_folder = Some ''/s'',
      PLANNED = [],
      LAST_MOVES = [],
      logs = [],
      preview = [],
      apply_btn = False,
      undo_btn = False\<rparr>"


abbreviation ex_a :: path where
  "ex_a \<equiv> \<lparr>root = ''/'', parts = [''s'', ''a.jpg'']\<rparr>"

abbreviation ex_b :: path where
  "ex_b \<equiv> \<lparr>root = ''/'', parts = [''s'', ''b.pdf'']\<rparr>"

abbreviation ex_a_dst :: path where
  "ex_a_dst \<equiv> \<lparr>root = ''/'', parts = [''s'', ''Organized'', ''Images'', ''a.jpg'']\<rparr>"

abbreviation ex_b_dst :: path where
  "ex_b_dst \<equiv> \<lparr>root = ''/'', parts = [''s'', ''Organized'', ''PDFs'', ''b.pdf'']\<rparr>"

section \<open>The target folder\<close>

lemma is_absolute_Path: "is_absolute (Path t) \<longleftrightarrow> take 1 t = ''/''"
  by (auto simp: is_absolute_def Path_def splitroot_def Let_def split: prod.splits if_splits)

text \<open>
  C8, as stated, fails for a target setting that is the empty string. The setting is
  present and \<open>Path("")\<close> is a relative path, so the claim asks for the source root joined
  with it, which is the source root itself; \<open>if raw_tgt:\<close> treats the empty string like
  a missing setting and the result is \<open>Organized\<close> under the source root.
\<close>

theorem resolve_target_empty_setting:
  "target \<lparr>target = Some '''', rules = []\<rparr> = Some '''' \<and>
   \<not> is_absolute (Path '''') \<and>
   resolve_target \<lparr>target = Some '''', rules = []\<rparr> (Path ''/data'') = Path ''/data/Organized'' \<and>
   joinpath (Path ''/data'') (Path '''') = Path ''/data'' \<and>
   Path ''/data/Organized'' \<noteq> Path ''/data''"
  by (simp add: resolve_target_def joinpath_def is_absolute_def Path_def splitroot_def)

text \<open>
  C8, amended: the organization root is \<open>Organized\<close> under the source root when the
  target setting is missing or empty; the source root followed by the components of the
  setting when the setting is not empty and does not start with a slash; and the setting
  itself, parsed as a path, when it starts with a slash. \<open>resolve_target\<close> is a total
  function of the configuration and the source root alone: it reads no filesystem and
  raises nothing.
\<close>

theorem resolve_target_cases:
  "((target cfg = None \<or> target cfg = Some []) \<longrightarrow>
      resolve_target cfg src = \<lparr>root = root src, parts = parts src @ [''Organized'']\<rparr>) \<and>
   (target cfg = Some t \<and> t \<noteq> [] \<and> take 1 t \<noteq> ''/'' \<longrightarrow>
      resolve_target cfg src = \<lparr>root = root src, parts = parts src @ parts (Path t)\<rparr>) \<and>
   (target cfg = Some t \<and> take 1 t = ''/'' \<longrightarrow> resolve_target cfg src = Path t)"
proof -
  have org: "Path ''Organized'' = \<lparr>root = [], parts = [''Organized'']\<rparr>"
    by (simp add: Path_def splitroot_def)
  have rel: "joinpath src (Path ''Organized'') =
      \<lparr>root = root src, parts = parts src @ [''Organized'']\<rparr>"
    by (simp add: org joinpath_def is_absolute_def)
  have a: "(target cfg = None \<or> target cfg = Some []) \<longrightarrow>
      resolve_target cfg src = \<lparr>root = root src, parts = parts src @ [''Organized'']\<rparr>"
    by (auto simp: resolve_target_def rel)
  have b: "target cfg = Some t \<and> t \<noteq> [] \<and> take 1 t \<noteq> ''/'' \<longrightarrow>
      resolve_target cfg src = \<lparr>root = root src, parts = parts src @ parts (Path t)\<rparr>"
    using is_absolute_Path [of t] by (simp add: resolve_target_def joinpath_def Let_def)
  have c: "target cfg = Some t \<and> take 1 t = ''/'' \<longrightarrow> resolve_target cfg src = Path t"
    using is_absolute_Path [of t] by (auto simp: resolve_target_def Let_def)
  show ?thesis using a b c by blast
qed

theorem resolve_target_cases_witness:
  "resolve_target \<lparr>target = None, rules = []\<rparr> (Path ''/data'') = Path ''/data/Organized'' \<and>
   resolve_target \<lparr>target = Some ''out/pics'', rules = []\<rparr> (Path ''/data'')
     = Path ''/data/out/pics'' \<and>
   resolve_target \<lparr>target = Some ''/srv/sorted'', rules = []\<rparr> (Path ''/data'')
     = Path ''/srv/sorted''"
proof -
  have p1: "Path ''/data'' = \<lparr>root = ''/'', parts = [''data'']\<rparr>"
    by (simp add: Path_def splitroot_def)
  have p2: "Path ''/data/Organized'' = \<lparr>root = ''/'', parts = [''data'', ''Organized'']\<rparr>"
    by (simp add: Path_def splitroot_def)
  have p3: "Path ''out/pics'' = \<lparr>root = [], parts = [''out'', ''pics'']\<rparr>"
    by (simp add: Path_def splitroot_def)
  have p4: "Path ''/data/out/pics'' = \<lparr>root = ''/'', parts = [''data'', ''out'', ''pics'']\<rparr>"
    by (simp add: Path_def splitroot_def)
  show ?thesis
    using resolve_target_cases [of "\<lparr>target = None, rules = []\<rparr>" "Path ''/data''" "[]"]
      resolve_target_cases [of "\<lparr>target = Some ''out/pics'', rules = []\<rparr>" "Path ''/data''"
        "''out/pics''"]
      resolve_target_cases [of "\<lparr>target = Some ''/srv/sorted'', rules = []\<rparr>" "Path ''/data''"
        "''/srv/sorted''"]
    by (simp add: p1 p2 p3 p4)
qed

section \<open>Matching files against rules\<close>








section \<open>Files below the target folder\<close>







section \<open>Rules without a destination\<close>



section \<open>Planning changes nothing but the plan and the window\<close>

text \<open>
  C7: \<open>start_arranging\<close> leaves the filesystem (and the working directory, the
  configuration, the selected folder, the undo ledger and the log files) as they were;
  planning again on the state it returns builds the same list of moves in the same
  order, and a second call returns the very state the first call returned. The order in
  which the operating system lists an unchanged tree is taken to be the same each time.
\<close>

theorem start_arranging_preview_only:
  "disk (start_arranging s) = disk s \<and> workdir (start_arranging s) = workdir s \<and>
   CONFIG (start_arranging s) = CONFIG s \<and> selected_folder (start_arranging s) = selected_folder s \<and>
   LAST_MOVES (start_arranging s) = LAST_MOVES s \<and> logs (start_arranging s) = logs s \<and>
   plan_for (start_arranging s) folder = plan_for s folder \<and>
   start_arranging (start_arranging s) = start_arranging s"
proof -
  have frame: "disk (start_arranging s) = disk s \<and> workdir (start_arranging s) = workdir s \<and>
   CONFIG (start_arranging s) = CONFIG s \<and> selected_folder (start_arranging s) = selected_folder s \<and>
   LAST_MOVES (start_arranging s) = LAST_MOVES s \<and> logs (start_arranging s) = logs s"
    by (auto simp: start_arranging_def Let_def split: option.splits)
  then have same: "plan_for (start_arranging s) folder = plan_for s folder"
    by (simp add: plan_for_def)
  have "start_arranging (start_arranging s) = start_arranging s"
    by (auto simp: start_arranging_def Let_def plan_for_def split: option.splits)
  with frame same show ?thesis by blast
qed

section \<open>The first free name\<close>

lemma first_free_spec:
  "name candidate \<noteq> [] \<Longrightarrow>
   \<exists>c. first_free fs cwd token dstf candidate i = Inr c \<and> \<not> exists_path fs cwd c \<and>
       (if exists_path fs cwd candidate
        then \<exists>n \<ge> i. c = replace_name candidate (numbered token dstf n) \<and>
               (\<forall>j. i \<le> j \<and> j < n \<longrightarrow>
                  exists_path fs cwd (replace_name candidate (numbered token dstf j)))
        else c = candidate)"
proof (induction fs cwd token dstf candidate i rule: first_free.induct)
  case (1 fs cwd token dstf candidate i)
  show ?case
  proof (cases "exists_path fs cwd candidate")
    case False
    then show ?thesis
      by (subst first_free.simps) simp
  next
    case True
    let ?c = "replace_name candidate (numbered token dstf i)"
    have w: "with_name candidate (numbered token dstf i) = Inr ?c"
      using 1(2) by (simp add: with_name_def)
    have nm: "name ?c \<noteq> []"
      by (simp add: name_replace_name numbered_not_empty)
    have unfold: "first_free fs cwd token dstf candidate i
        = first_free fs cwd token dstf ?c (i + 1)"
      using True w by (subst first_free.simps) simp
    from 1(1) [OF True w nm, unfolded replace_name_twice]
    obtain c where c: "first_free fs cwd token dstf ?c (i + 1) = Inr c"
        "\<not> exists_path fs cwd c"
      and alt: "if exists_path fs cwd ?c
        then \<exists>n \<ge> i + 1. c = replace_name candidate (numbered token dstf n) \<and>
               (\<forall>j. i + 1 \<le> j \<and> j < n \<longrightarrow>
                  exists_path fs cwd (replace_name candidate (numbered token dstf j)))
        else c = ?c"
      by blast
    have "\<exists>n \<ge> i. c = replace_name candidate (numbered token dstf n) \<and>
        (\<forall>j. i \<le> j \<and> j < n \<longrightarrow>
           exists_path fs cwd (replace_name candidate (numbered token dstf j)))"
    proof (cases "exists_path fs cwd ?c")
      case False
      with alt have "c = ?c"
        by simp
      then show ?thesis by auto
    next
      case ex: True
      with alt obtain n where n: "i + 1 \<le> n"
        "c = replace_name candidate (numbered token dstf n)"
        "\<forall>j. i + 1 \<le> j \<and> j < n \<longrightarrow>
           exists_path fs cwd (replace_name candidate (numbered token dstf j))"
        by auto
      have "\<forall>j. i \<le> j \<and> j < n \<longrightarrow>
          exists_path fs cwd (replace_name candidate (numbered token dstf j))"
      proof (intro allI impI)
        fix j
        assume "i \<le> j \<and> j < n"
        then have "j = i \<or> (i + 1 \<le> j \<and> j < n)"
          by arith
        then show "exists_path fs cwd (replace_name candidate (numbered token dstf j))"
          using ex n(3) by auto
      qed
      with n show ?thesis
        by (intro exI [of _ n]) simp
    qed
    with c True unfold show ?thesis by simp
  qed
qed

lemma stem_suffix: "stem p @ suffix p = name p"
  by (simp add: stem_def suffix_def split: option.splits)

lemma renamed_parent: "parts p \<noteq> [] \<Longrightarrow> parent (renamed token p n) = parent p"
  by (simp add: parent_def renamed_def replace_name_def)

lemma renamed_name: "name (renamed token p n) = numbered token p n"
  by (simp add: renamed_def name_replace_name)

text \<open>
  C5: the resolution returns the desired path itself when it does not exist. When it
  exists (and has a file name, as every destination has), some round \<open>n \<ge> 1\<close> gives the
  result: the path of round \<open>n\<close> does not exist, the paths of all rounds before it exist,
  and it differs from the desired path only in its name, which is the desired name with
  \<open>(n)\<close> after a space put between stem and extension. The resolution is a function of
  the filesystem that returns a path and nothing else: it creates nothing. The loop
  always ends (\<open>first_free\<close> is total).
\<close>

theorem avoid_overwrite_first_free:
  "(\<not> exists_path fs cwd dstf \<longrightarrow> first_free fs cwd [] dstf dstf 1 = Inr dstf) \<and>
   (exists_path fs cwd dstf \<and> name dstf \<noteq> [] \<longrightarrow>
      (\<exists>n \<ge> 1. first_free fs cwd [] dstf dstf 1 = Inr (renamed [] dstf n) \<and>
         \<not> exists_path fs cwd (renamed [] dstf n) \<and>
         (\<forall>j. 1 \<le> j \<and> j < n \<longrightarrow> exists_path fs cwd (renamed [] dstf j)) \<and>
         parent (renamed [] dstf n) = parent dstf \<and>
         name (renamed [] dstf n) = stem dstf @ '' ('' @ str_nat n @ '')'' @ suffix dstf \<and>
         name dstf = stem dstf @ suffix dstf))"
proof -
  have a: "\<not> exists_path fs cwd dstf \<longrightarrow> first_free fs cwd [] dstf dstf 1 = Inr dstf"
    by (subst first_free.simps) simp
  have b: "exists_path fs cwd dstf \<and> name dstf \<noteq> [] \<longrightarrow>
      (\<exists>n \<ge> 1. first_free fs cwd [] dstf dstf 1 = Inr (renamed [] dstf n) \<and>
         \<not> exists_path fs cwd (renamed [] dstf n) \<and>
         (\<forall>j. 1 \<le> j \<and> j < n \<longrightarrow> exists_path fs cwd (renamed [] dstf j)) \<and>
         parent (renamed [] dstf n) = parent dstf \<and>
         name (renamed [] dstf n) = stem dstf @ '' ('' @ str_nat n @ '')'' @ suffix dstf \<and>
         name dstf = stem dstf @ suffix dstf)"
  proof
    assume h: "exists_path fs cwd dstf \<and> name dstf \<noteq> []"
    then have ne: "parts dstf \<noteq> []" by (auto simp: name_def)
    from h first_free_spec [of dstf fs cwd "[]" dstf 1, folded renamed_def]
    obtain n where n: "1 \<le> n" "first_free fs cwd [] dstf dstf 1 = Inr (renamed [] dstf n)"
      "\<not> exists_path fs cwd (renamed [] dstf n)"
      "\<forall>j. 1 \<le> j \<and> j < n \<longrightarrow> exists_path fs cwd (renamed [] dstf j)"
      by auto
    have "name (renamed [] dstf n) = stem dstf @ '' ('' @ str_nat n @ '')'' @ suffix dstf"
      by (simp add: renamed_name numbered_def)
    with n ne show "\<exists>n \<ge> 1. first_free fs cwd [] dstf dstf 1 = Inr (renamed [] dstf n) \<and>
         \<not> exists_path fs cwd (renamed [] dstf n) \<and>
         (\<forall>j. 1 \<le> j \<and> j < n \<longrightarrow> exists_path fs cwd (renamed [] dstf j)) \<and>
         parent (renamed [] dstf n) = parent dstf \<and>
         name (renamed [] dstf n) = stem dstf @ '' ('' @ str_nat n @ '')'' @ suffix dstf \<and>
         name dstf = stem dstf @ suffix dstf"
      by (intro exI [of _ n]) (simp add: renamed_parent stem_suffix)
  qed
  show ?thesis using a b by blast
qed

theorem avoid_overwrite_first_free_witness:
  "first_free ex_taken [] [] ex_jpg ex_jpg 1
     = Inr \<lparr>root = ''/'', parts = [''d'', ''x (3).jpg'']\<rparr> \<and>
   first_free ex_taken [] [] ex_new ex_new 1 = Inr ex_new"
proof -
  have h1: "\<not> exists_path ex_taken [] ex_new"
    by code_simp
  have h2: "exists_path ex_taken [] ex_jpg \<and> name ex_jpg \<noteq> []"
    by code_simp
  have r: "renamed [] ex_jpg 3 = \<lparr>root = ''/'', parts = [''d'', ''x (3).jpg'']\<rparr>"
    by code_simp
  have f: "first_free ex_taken [] [] ex_jpg ex_jpg 1 = Inr (renamed [] ex_jpg 3)"
    by code_simp
  from avoid_overwrite_first_free [of ex_taken "[]" ex_new] h1
  have a: "first_free ex_taken [] [] ex_new ex_new 1 = Inr ex_new"
    by blast
  from avoid_overwrite_first_free [of ex_taken "[]" ex_jpg] h2
  obtain n where "first_free ex_taken [] [] ex_jpg ex_jpg 1 = Inr (renamed [] ex_jpg n)"
    by blast
  with f have "first_free ex_taken [] [] ex_jpg ex_jpg 1
      = Inr \<lparr>root = ''/'', parts = [''d'', ''x (3).jpg'']\<rparr>"
    by (simp only: r)
  with a show ?thesis by (simp only: simp_thms)
qed

section \<open>Undo\<close>

lemma first_free_Inr:
  assumes "first_free fs cwd token d d i = Inr c"
  shows "\<not> exists_path fs cwd c \<and>
         (c = d \<or> (exists_path fs cwd d \<and> (\<exists>n \<ge> i. c = renamed token d n)))"
proof (cases "exists_path fs cwd d")
  case False
  with assms show ?thesis
    by (subst (asm) first_free.simps) auto
next
  case True
  have "name d \<noteq> []"
  proof
    assume "name d = []"
    then have "first_free fs cwd token d d i = Inl (ValueError, str_path d @ '' has an empty name'')"
      using True by (subst first_free.simps) (simp add: with_name_def)
    with assms show False by simp
  qed
  from first_free_spec [OF this, of fs cwd token d i, folded renamed_def] assms True
  show ?thesis by auto
qed

lemma undo_item_restored:
  assumes "restored (undo_item cwd u (fp, op)) \<noteq> restored u"
  shows "\<exists>fs1 cand. mkdir (utree u) cwd (parent (Path op)) = Inr fs1 \<and>
           first_free fs1 cwd ''undone '' (Path op) (Path op) 1 = Inr cand \<and>
           move fs1 cwd (Path fp) cand = Inr (utree (undo_item cwd u (fp, op)))"
  using assms
  by (auto simp: undo_item_def Let_def split: sum.splits)

text \<open>
  C2: undo goes through the ledger from its last entry to its first: with the ledger
  \<open>ms @ [m]\<close> the entry \<open>m\<close>, moved last, is handled first, on the filesystem as the batch
  left it, and the entries of \<open>ms\<close> follow in reverse. Whenever an entry is restored, the
  file is moved from \<open>finalPath\<close> to a path that did not exist and that is either
  \<open>originalPath\<close> itself or, \<open>originalPath\<close> being taken, \<open>originalPath\<close> with
  \<open>(undone n)\<close>, \<open>n \<ge> 1\<close>, after a space between stem and extension, in the same folder.
\<close>

theorem undo_restores_in_reverse:
  "(LAST_MOVES s = ms @ [m] \<longrightarrow>
      disk (undo_moves s) =
        utree (undo_loop (workdir s)
                 (undo_item (workdir s) \<lparr>utree = disk s, restored = 0, ufailed = []\<rparr> m)
                 (rev ms))) \<and>
   (restored (undo_item cwd u (fp, op)) \<noteq> restored u \<longrightarrow>
      (\<exists>fs1 cand.
         mkdir (utree u) cwd (parent (Path op)) = Inr fs1 \<and>
         move fs1 cwd (Path fp) cand = Inr (utree (undo_item cwd u (fp, op))) \<and>
         \<not> exists_path fs1 cwd cand \<and>
         (cand = Path op \<or>
          (exists_path fs1 cwd (Path op) \<and>
           (\<exists>n \<ge> 1. cand = renamed ''undone '' (Path op) n \<and>
              name cand = stem (Path op) @ '' (undone '' @ str_nat n @ '')'' @ suffix (Path op) \<and>
              parent cand = parent (Path op))))))"
proof -
  have a: "LAST_MOVES s = ms @ [m] \<longrightarrow>
      disk (undo_moves s) =
        utree (undo_loop (workdir s)
                 (undo_item (workdir s) \<lparr>utree = disk s, restored = 0, ufailed = []\<rparr> m)
                 (rev ms))"
    by (simp add: undo_moves_def Let_def)
  have b: "restored (undo_item cwd u (fp, op)) \<noteq> restored u \<longrightarrow>
      (\<exists>fs1 cand.
         mkdir (utree u) cwd (parent (Path op)) = Inr fs1 \<and>
         move fs1 cwd (Path fp) cand = Inr (utree (undo_item cwd u (fp, op))) \<and>
         \<not> exists_path fs1 cwd cand \<and>
         (cand = Path op \<or>
          (exists_path fs1 cwd (Path op) \<and>
           (\<exists>n \<ge> 1. cand = renamed ''undone '' (Path op) n \<and>
              name cand = stem (Path op) @ '' (undone '' @ str_nat n @ '')'' @ suffix (Path op) \<and>
              parent cand = parent (Path op)))))"
  proof
    assume "restored (undo_item cwd u (fp, op)) \<noteq> restored u"
    from undo_item_restored [OF this]
    obtain fs1 cand where m: "mkdir (utree u) cwd (parent (Path op)) = Inr fs1"
      and f: "first_free fs1 cwd ''undone '' (Path op) (Path op) 1 = Inr cand"
      and v: "move fs1 cwd (Path fp) cand = Inr (utree (undo_item cwd u (fp, op)))"
      by blast
    from first_free_Inr [OF f]
    have free: "\<not> exists_path fs1 cwd cand"
      and alt: "cand = Path op \<or>
          (exists_path fs1 cwd (Path op) \<and> (\<exists>n \<ge> 1. cand = renamed ''undone '' (Path op) n))"
      by auto
    have shape: "cand = Path op \<or>
          (exists_path fs1 cwd (Path op) \<and>
           (\<exists>n \<ge> 1. cand = renamed ''undone '' (Path op) n \<and>
              name cand = stem (Path op) @ '' (undone '' @ str_nat n @ '')'' @ suffix (Path op) \<and>
              parent cand = parent (Path op)))"
    proof (cases "cand = Path op")
      case True
      then show ?thesis by simp
    next
      case False
      with alt obtain n where n: "exists_path fs1 cwd (Path op)" "1 \<le> n"
        "cand = renamed ''undone '' (Path op) n" by auto
      have ne: "parts (Path op) \<noteq> []"
      proof
        assume "parts (Path op) = []"
        then have "name (Path op) = []" by (simp add: name_def)
        then have "first_free fs1 cwd ''undone '' (Path op) (Path op) 1
            = Inl (ValueError, str_path (Path op) @ '' has an empty name'')"
          using n(1) by (subst first_free.simps) (simp add: with_name_def)
        with f show False by simp
      qed
      have "name cand = stem (Path op) @ '' (undone '' @ str_nat n @ '')'' @ suffix (Path op)"
        by (simp add: n(3) renamed_name numbered_def)
      moreover have "parent cand = parent (Path op)"
        using ne by (simp add: n(3) renamed_parent)
      ultimately show ?thesis using n by blast
    qed
    from m v free shape
    show "\<exists>fs1 cand.
         mkdir (utree u) cwd (parent (Path op)) = Inr fs1 \<and>
         move fs1 cwd (Path fp) cand = Inr (utree (undo_item cwd u (fp, op))) \<and>
         \<not> exists_path fs1 cwd cand \<and>
         (cand = Path op \<or>
          (exists_path fs1 cwd (Path op) \<and>
           (\<exists>n \<ge> 1. cand = renamed ''undone '' (Path op) n \<and>
              name cand = stem (Path op) @ '' (undone '' @ str_nat n @ '')'' @ suffix (Path op) \<and>
              parent cand = parent (Path op))))"
      by blast
  qed
  show ?thesis using a b by blast
qed

theorem undo_restores_in_reverse_witness:
  "disk (undo_moves ex_done) =
     [([''s''], Dir), ([''s'', ''Organized''], Dir), ([''s'', ''Organized'', ''Images''], Dir),
      ([''s'', ''a (undone 1).jpg''], File), ([''s'', ''Organized'', ''PDFs''], Dir),
      ([''s'', ''b.pdf''], File), ([''s'', ''a.jpg''], File)] \<and>
   utree (undo_item [] \<lparr>utree = disk ex_done, restored = 0, ufailed = []\<rparr>
            (''/s/Organized/PDFs/b.pdf'', ''/s/b.pdf'')) =
     [([''s''], Dir), ([''s'', ''Organized''], Dir), ([''s'', ''Organized'', ''Images''], Dir),
      ([''s'', ''Organized'', ''Images'', ''a.jpg''], File), ([''s'', ''Organized'', ''PDFs''], Dir),
      ([''s'', ''b.pdf''], File), ([''s'', ''a.jpg''], File)]"
proof -
  let ?u0 = "\<lparr>utree = disk ex_done, restored = 0, ufailed = []\<rparr>"
  let ?m = "(''/s/Organized/PDFs/b.pdf'', ''/s/b.pdf'')"
  let ?ms = "[(''/s/Organized/Images/a.jpg'', ''/s/a.jpg'')]"
  have l: "LAST_MOVES ex_done = ?ms @ [?m]"
    by simp
  have w: "workdir ex_done = []"
    by simp
  have first: "utree (undo_item [] ?u0 ?m) =
     [([''s''], Dir), ([''s'', ''Organized''], Dir), ([''s'', ''Organized'', ''Images''], Dir),
      ([''s'', ''Organized'', ''Images'', ''a.jpg''], File), ([''s'', ''Organized'', ''PDFs''], Dir),
      ([''s'', ''b.pdf''], File), ([''s'', ''a.jpg''], File)]"
    by code_simp
  have rest: "utree (undo_loop [] (undo_item [] ?u0 ?m) (rev ?ms)) =
     [([''s''], Dir), ([''s'', ''Organized''], Dir), ([''s'', ''Organized'', ''Images''], Dir),
      ([''s'', ''a (undone 1).jpg''], File), ([''s'', ''Organized'', ''PDFs''], Dir),
      ([''s'', ''b.pdf''], File), ([''s'', ''a.jpg''], File)]"
    by code_simp
  from undo_restores_in_reverse [of ex_done ?ms ?m] l
  have "disk (undo_moves ex_done) = utree (undo_loop [] (undo_item [] ?u0 ?m) (rev ?ms))"
    by (simp only: w)
  with rest first show ?thesis by (simp only: simp_thms)
qed

text \<open>
  C6: with an empty ledger \<open>undo_moves\<close> changes nothing but the preview, which then says
  that there is nothing to undo. Whatever the ledger held and however many entries
  could be restored, the ledger is empty afterwards, so that undoing once more only
  says again that there is nothing to undo.
\<close>

theorem undo_consumes_ledger:
  "(LAST_MOVES s = [] \<longrightarrow> undo_moves s = s\<lparr>preview := [''Nothing to undo.'']\<rparr>) \<and>
   LAST_MOVES (undo_moves s) = [] \<and>
   undo_moves (undo_moves s) = (undo_moves s)\<lparr>preview := [''Nothing to undo.'']\<rparr>"
proof -
  have a: "LAST_MOVES s = [] \<longrightarrow> undo_moves s = s\<lparr>preview := [''Nothing to undo.'']\<rparr>"
    by (simp add: undo_moves_def)
  have b: "LAST_MOVES (undo_moves s) = []"
    by (simp add: undo_moves_def Let_def)
  have "undo_moves (undo_moves s) = (undo_moves s)\<lparr>preview := [''Nothing to undo.'']\<rparr>"
    using b by (subst undo_moves_def) simp
  with a b show ?thesis by blast
qed

theorem undo_consumes_ledger_witness:
  "undo_moves (ex_done\<lparr>LAST_MOVES := []\<rparr>)
     = ex_done\<lparr>LAST_MOVES := [], preview := [''Nothing to undo.'']\<rparr> \<and>
   LAST_MOVES ex_done \<noteq> [] \<and>
   preview (undo_moves ex_done) = [''All changes were undone.'', ''Restored: 2   Failed: 0''] \<and>
   LAST_MOVES (undo_moves ex_done) = [] \<and>
   preview (undo_moves (undo_moves ex_done)) = [''Nothing to undo.'']"
proof -
  have e: "LAST_MOVES (ex_done\<lparr>LAST_MOVES := []\<rparr>) = []"
    by simp
  have p: "preview (undo_moves ex_done) = [''All changes were undone.'', ''Restored: 2   Failed: 0'']"
    by code_simp
  from undo_consumes_ledger [of "ex_done\<lparr>LAST_MOVES := []\<rparr>"] e
  have a: "undo_moves (ex_done\<lparr>LAST_MOVES := []\<rparr>)
     = ex_done\<lparr>LAST_MOVES := [], preview := [''Nothing to undo.'']\<rparr>"
    by simp
  from undo_consumes_ledger [of ex_done]
  have b: "LAST_MOVES (undo_moves ex_done) = []"
    and c: "undo_moves (undo_moves ex_done) = (undo_moves ex_done)\<lparr>preview := [''Nothing to undo.'']\<rparr>"
    by blast+
  have "preview (undo_moves (undo_moves ex_done)) = [''Nothing to undo.'']"
    by (subst c) simp
  with a b p show ?thesis by simp
qed

section \<open>The log and the ledger of a batch\<close>











section \<open>A destination folder that cannot be made\<close>

text \<open>
  Whatever the plan, a destination folder that cannot be made ends the loop with the
  exception, before the items that follow are looked at; a move that fails is noted and
  the loop goes on.
\<close>

lemma apply_loop_mkdir_failure:
  "mkdir (tree b) cwd (parent dstf) = Inl (e, fs1) \<Longrightarrow>
   apply_loop cwd b ((srcf, dstf, rname) # items) = Inl (e, b\<lparr>tree := fs1\<rparr>)"
  by (simp add: apply_item_def)

lemma apply_item_move_failure:
  "mkdir (tree b) cwd (parent dstf) = Inr fs1 \<Longrightarrow>
   resolve cwd srcf \<noteq> resolve cwd dstf \<Longrightarrow>
   first_free fs1 cwd [] dstf dstf 1 = Inr candidate \<Longrightarrow>
   move fs1 cwd srcf candidate = Inl e \<Longrightarrow>
   \<exists>b'. apply_item cwd b (srcf, dstf, rname) = Inr b' \<and> moved b' = moved b \<and>
        failed b' = failed b @ [(name srcf, type_name (fst e))]"
  by (simp add: apply_item_def)

text \<open>
  C1 does not hold of the code. \<open>Organized/Images\<close> is a regular file, so
  \<open>dstf.parent.mkdir(parents=True, exist_ok=True)\<close> raises \<open>FileExistsError\<close> for the first
  planned move. The call stands outside the \<open>try\<close> blocks of \<open>apply_moves\<close> (in
  \<open>undo_moves\<close> it stands inside), so the exception leaves \<open>apply_moves\<close>: the failure is
  not logged, the second move is never tried although it succeeds when planned alone, the
  log has its header only, and ledger and plan stay as they were.
\<close>

theorem apply_moves_aborts_on_mkdir_failure:
  "PLANNED (start_arranging ex_blocked)
     = [(ex_a, ex_a_dst, ''img''), (ex_b, ex_b_dst, ''doc'')] \<and>
   apply_moves (start_arranging ex_blocked) ''20260101_120000''
     = Inl ((FileExistsError, ''[Errno 17] File exists''),
            (start_arranging ex_blocked)
              \<lparr>logs := [(''logs/arranger_20260101_120000.txt'',
                         ''[Apply] 20260101_120000\<newline>Source: /s\<newline>\<newline>'')]\<rparr>) \<and>
   map_sum fst LAST_MOVES
       (apply_moves ((start_arranging ex_blocked)\<lparr>PLANNED := [(ex_b, ex_b_dst, ''doc'')]\<rparr>)
          ''20260101_120000'')
     = Inr [(''/s/Organized/PDFs/b.pdf'', ''/s/b.pdf'')]"
  by code_simp

end
